theory Spec2Isabelle
  imports Complex_Main
begin

section \<open>Numbers\<close>

text \<open>
  A TypeScript \<open>number\<close> is modelled with exact rational arithmetic: a finite value is a
  \<open>rat\<close>, and the three special values that \<open>parseFloat\<close> and the arithmetic operators
  can deliver are constructors of their own. Rounding to a double and the sign of zero
  are outside the model.
\<close>

datatype jsnum = Fin rat | PInf | NInf | NaN

fun jsadd :: "jsnum \<Rightarrow> jsnum \<Rightarrow> jsnum" where
  "jsadd NaN _ = NaN"
| "jsadd _ NaN = NaN"
| "jsadd PInf NInf = NaN"
| "jsadd NInf PInf = NaN"
| "jsadd PInf _ = PInf"
| "jsadd _ PInf = PInf"
| "jsadd NInf _ = NInf"
| "jsadd _ NInf = NInf"
| "jsadd (Fin a) (Fin b) = Fin (a + b)"

fun jsneg :: "jsnum \<Rightarrow> jsnum" where
  "jsneg (Fin a) = Fin (- a)"
| "jsneg PInf = NInf"
| "jsneg NInf = PInf"
| "jsneg NaN = NaN"

fun jsmul :: "jsnum \<Rightarrow> jsnum \<Rightarrow> jsnum" where
  "jsmul NaN _ = NaN"
| "jsmul _ NaN = NaN"
| "jsmul (Fin a) (Fin b) = Fin (a * b)"
| "jsmul (Fin a) y = (if a = 0 then NaN else if 0 < a then y else jsneg y)"
| "jsmul x (Fin b) = (if b = 0 then NaN else if 0 < b then x else jsneg x)"
| "jsmul PInf y = y"
| "jsmul NInf y = jsneg y"

fun jsdiv :: "jsnum \<Rightarrow> jsnum \<Rightarrow> jsnum" where
  "jsdiv NaN _ = NaN"
| "jsdiv _ NaN = NaN"
| "jsdiv (Fin a) (Fin b) =
     (if b = 0 then (if a = 0 then NaN else if 0 < a then PInf else NInf)
      else Fin (a / b))"
| "jsdiv (Fin a) _ = Fin 0"
| "jsdiv x (Fin b) = (if 0 \<le> b then x else jsneg x)"
| "jsdiv _ _ = NaN"

text \<open>Truthiness of a number: \<open>0\<close> and \<open>NaN\<close> are falsy.\<close>

fun truthy :: "jsnum \<Rightarrow> bool" where
  "truthy (Fin a) = (a \<noteq> 0)"
| "truthy NaN = False"
| "truthy _ = True"

text \<open>\<open>a || b\<close> on numbers.\<close>

definition orElse :: "jsnum \<Rightarrow> jsnum \<Rightarrow> jsnum" where
  "orElse a b = (if truthy a then a else b)"

section \<open>Numbers and strings\<close>

text \<open>
  \<open>parseFloat\<close>, \<open>Number.prototype.toString\<close> and \<open>Number.prototype.toFixed\<close> are
  built-ins of the language; they are modelled after the ECMAScript definitions, on
  strings of 8-bit characters (white space is the ASCII white space).
\<close>

definition isDigit :: "char \<Rightarrow> bool" where
  "isDigit c = (c \<in> set ''0123456789'')"

definition digitVal :: "char \<Rightarrow> nat" where
  "digitVal c = of_char c - 48"

definition digitChar :: "nat \<Rightarrow> char" where
  "digitChar d = char_of (48 + d)"

definition digitsVal :: "string \<Rightarrow> nat" where
  "digitsVal ds = foldl (\<lambda>acc c. acc * 10 + digitVal c) 0 ds"

fun showNat :: "nat \<Rightarrow> string" where
  "showNat n = (if n < 10 then [digitChar n] else showNat (n div 10) @ [digitChar (n mod 10)])"

declare showNat.simps [simp del]

definition isWhite :: "char \<Rightarrow> bool" where
  "isWhite c = (c \<in> set [CHR 0x09, CHR 0x0A, CHR 0x0B, CHR 0x0C, CHR 0x0D, CHR 0x20])"

fun stripSign :: "string \<Rightarrow> bool \<times> string" where
  "stripSign [] = (False, [])"
| "stripSign (c # cs) =
     (if c = CHR ''-'' then (True, cs) else if c = CHR ''+'' then (False, cs)
      else (False, c # cs))"

text \<open>\<open>m \<times> 10\<^sup>e\<close> for an integer exponent.\<close>

definition scale10 :: "rat \<Rightarrow> int \<Rightarrow> rat" where
  "scale10 m e = (if 0 \<le> e then m * 10 ^ nat e else m / 10 ^ nat (- e))"

text \<open>The exponent part, if the rest of the string starts with a well-formed one.\<close>

definition parseExponent :: "string \<Rightarrow> int" where
  "parseExponent r =
     (case r of
        [] \<Rightarrow> 0
      | c # cs \<Rightarrow>
          if c = CHR ''e'' \<or> c = CHR ''E'' then
            (let (neg, u) = stripSign cs; ds = takeWhile isDigit u
             in if ds = [] then 0
                else if neg then - int (digitsVal ds) else int (digitsVal ds))
          else 0)"

text \<open>
  \<open>parseFloat\<close>: leading white space is skipped, the longest prefix that is a decimal
  literal is read, and \<open>NaN\<close> is the result when there is none.
\<close>

definition readDecimal :: "string \<Rightarrow> rat option" where
  "readDecimal u =
     (let ip = takeWhile isDigit u;
          r1 = dropWhile isDigit u;
          fp = (case r1 of [] \<Rightarrow> []
                | c # cs \<Rightarrow> if c = CHR ''.'' then takeWhile isDigit cs else []);
          r2 = (case r1 of [] \<Rightarrow> []
                | c # cs \<Rightarrow> if c = CHR ''.'' then dropWhile isDigit cs else r1)
      in if ip = [] \<and> fp = [] then None
         else Some (scale10 (of_nat (digitsVal (ip @ fp)))
                      (parseExponent r2 - int (length fp))))"

definition parseFloat :: "string \<Rightarrow> jsnum" where
  "parseFloat s =
     (let (neg, u) = stripSign (dropWhile isWhite s) in
      if take 8 u = ''Infinity'' then (if neg then NInf else PInf)
      else case readDecimal u of
             None \<Rightarrow> NaN
           | Some v \<Rightarrow> Fin (if neg then - v else v))"

text \<open>
  Writing a positive number \<open>p / q\<close> as \<open>s \<times> 10\<^sup>t\<close> with \<open>s\<close> not divisible by 10:
  first the factors 2 and 5 are removed from the denominator, then the trailing zeros
  from the numerator. There is no such pair when the denominator has another prime
  factor.
\<close>

function strip25 :: "nat \<Rightarrow> nat \<Rightarrow> nat \<Rightarrow> (nat \<times> nat) option" where
  "strip25 p q e =
     (if q = 0 then None
      else if q = 1 then Some (p, e)
      else if 2 dvd q then strip25 (p * 5) (q div 2) (Suc e)
      else if 5 dvd q then strip25 (p * 2) (q div 5) (Suc e)
      else None)"
  by pat_completeness auto
termination
  by (relation "measure (\<lambda>(p, q, e). q)") auto

declare strip25.simps [simp del]

function stripZeros :: "nat \<Rightarrow> int \<Rightarrow> nat \<times> int" where
  "stripZeros s t = (if s \<noteq> 0 \<and> 10 dvd s then stripZeros (s div 10) (t + 1) else (s, t))"
  by pat_completeness auto
termination
  by (relation "measure (\<lambda>(s, t). s)") auto

declare stripZeros.simps [simp del]

definition decompose :: "rat \<Rightarrow> (nat \<times> int) option" where
  "decompose x =
     (let (p, q) = quotient_of x in
      case strip25 (nat p) (nat q) 0 of
        None \<Rightarrow> None
      | Some (m, e) \<Rightarrow> Some (stripZeros m (- int e)))"

text \<open>
  The digits \<open>ds\<close> of \<open>s\<close> and the position \<open>n\<close> of the decimal point (the value is
  \<open>0.ds \<times> 10\<^sup>n\<close>), laid out as \<open>Number::toString\<close> does.
\<close>

definition layout :: "string \<Rightarrow> int \<Rightarrow> string" where
  "layout ds n =
     (let k = int (length ds) in
      if k \<le> n \<and> n \<le> 21 then ds @ replicate (nat (n - k)) (CHR ''0'')
      else if 0 < n \<and> n \<le> 21 then take (nat n) ds @ ''.'' @ drop (nat n) ds
      else if - 6 < n \<and> n \<le> 0 then ''0.'' @ replicate (nat (- n)) (CHR ''0'') @ ds
      else
        let ex = n - 1;
            es = (if ex < 0 then ''-'' else ''+'') @ showNat (nat \<bar>ex\<bar>)
        in if k = 1 then ds @ ''e'' @ es
           else take 1 ds @ ''.'' @ drop 1 ds @ ''e'' @ es)"

text \<open>
  A double has a finite decimal expansion and JS prints the shortest digit string that
  reads back as the same double. In the exact model a decimal fraction is printed in
  full; a rational with no finite expansion (it cannot be the value of a parsed string)
  is printed with 17 significant digits, the most that JS prints.
\<close>

definition round17 :: "rat \<Rightarrow> nat \<times> int" where
  "round17 x =
     (let (p, q) = quotient_of x;
          d = int (length (showNat (nat p))) - int (length (showNat (nat q)));
          n = (if x < scale10 1 d then d else d + 1)
      in stripZeros (nat \<lfloor>scale10 x (17 - n) + 1 / 2\<rfloor>) (n - 17))"

definition posToString :: "rat \<Rightarrow> string" where
  "posToString x =
     (let (s, t) = (case decompose x of Some st \<Rightarrow> st | None \<Rightarrow> round17 x);
          ds = showNat s
      in layout ds (int (length ds) + t))"

fun numToString :: "jsnum \<Rightarrow> string" where
  "numToString NaN = ''NaN''"
| "numToString PInf = ''Infinity''"
| "numToString NInf = ''-Infinity''"
| "numToString (Fin x) =
     (if x = 0 then ''0'' else (if x < 0 then ''-'' else []) @ posToString \<bar>x\<bar>)"

text \<open>\<open>x.toFixed(2)\<close>: the nearest multiple of 1/100, the larger one at a tie.\<close>

fun toFixed2 :: "jsnum \<Rightarrow> string" where
  "toFixed2 NaN = ''NaN''"
| "toFixed2 PInf = ''Infinity''"
| "toFixed2 NInf = ''-Infinity''"
| "toFixed2 (Fin x) =
     (if x < 0 then ''-'' else []) @
     (let a = \<bar>x\<bar> in
      if 10 ^ 21 \<le> a then posToString a
      else
        let m = showNat (nat \<lfloor>a * 100 + 1 / 2\<rfloor>);
            m' = (if length m \<le> 2 then replicate (3 - length m) (CHR ''0'') @ m else m);
            k = length m'
        in take (k - 2) m' @ ''.'' @ drop (k - 2) m')"

text \<open>
  The numbers that a decimal literal can denote: the special values, 0, and the
  rationals with a finite decimal expansion. Every value of \<open>parseFloat\<close> is one.
\<close>

fun representable :: "jsnum \<Rightarrow> bool" where
  "representable (Fin x) = (x = 0 \<or> decompose \<bar>x\<bar> \<noteq> None)"
| "representable _ = True"

text \<open>Rounding to a multiple of 1/100, a tie away from zero.\<close>

definition round2 :: "rat \<Rightarrow> rat" where
  "round2 x = (if x < 0 then - 1 else 1) * of_int \<lfloor>\<bar>x\<bar> * 100 + 1 / 2\<rfloor> / 100"

section \<open>Currency converter\<close>

text \<open>
  \<open>ExchangeRates\<close> is an object from currency codes to numbers; the table is a literal of
  finite numbers, so an own property is a \<open>rat\<close>, and a code that is no own key of the
  object maps to \<open>None\<close>. The table and the main currency are component state in the
  source and arguments here.
\<close>

type_synonym ExchangeRates = "string \<rightharpoonup> rat"

text \<open>
  The table is a plain object, so reading a name that is not an own key finds what
  \<open>Object.prototype\<close> has under that name: a function, or the prototype itself for
  \<open>__proto__\<close>. These are its property names.
\<close>

definition objectPrototypeKeys :: "string list" where
  "objectPrototypeKeys =
     [''constructor'', ''__defineGetter__'', ''__defineSetter__'', ''hasOwnProperty'',
      ''__lookupGetter__'', ''__lookupSetter__'', ''isPrototypeOf'', ''propertyIsEnumerable'',
      ''toString'', ''valueOf'', ''__proto__'', ''toLocaleString'']"

text \<open>
  \<open>exchangeRates[c] || 1\<close>, as the number it is in the division and the multiplication.
  An own rate 0 and \<open>undefined\<close> are falsy and give 1. An inherited property is an object,
  which is truthy and converts to \<open>NaN\<close>.
\<close>

definition rateOr1 :: "ExchangeRates \<Rightarrow> string \<Rightarrow> jsnum" where
  "rateOr1 exchangeRates c =
     (case exchangeRates c of
        Some r \<Rightarrow> Fin (if r = 0 then 1 else r)
      | None \<Rightarrow> if c \<in> set objectPrototypeKeys then NaN else Fin 1)"

definition convertToMainCurrency ::
  "ExchangeRates \<Rightarrow> string \<Rightarrow> jsnum \<Rightarrow> string \<Rightarrow> jsnum" where
  "convertToMainCurrency exchangeRates mainCurrency amount currency =
     (let rate = rateOr1 exchangeRates currency;
          mainRate = rateOr1 exchangeRates mainCurrency
      in jsmul (jsdiv amount rate) mainRate)"

text \<open>The table of the local variant.\<close>

definition exchangeRates0 :: ExchangeRates where
  "exchangeRates0 =
     [''EUR'' \<mapsto> 1, ''USD'' \<mapsto> 11 / 10, ''GBP'' \<mapsto> 86 / 100, ''JPY'' \<mapsto> 150]"

text \<open>The table of the synced variant.\<close>

definition exchangeRatesSynced :: ExchangeRates where
  "exchangeRatesSynced =
     [''EUR'' \<mapsto> 1, ''USD'' \<mapsto> 11 / 10, ''GBP'' \<mapsto> 86 / 100, ''JPY'' \<mapsto> 150,
      ''VND'' \<mapsto> 27000]"

text \<open>The reading of the specification: only a missing rate is replaced by 1.\<close>

definition rateMissing1 :: "ExchangeRates \<Rightarrow> string \<Rightarrow> rat" where
  "rateMissing1 exchangeRates c = (case exchangeRates c of None \<Rightarrow> 1 | Some r \<Rightarrow> r)"

section \<open>Data model\<close>

record Transaction =
  id' :: string
  date :: string
  name :: string
  price :: jsnum
  currency :: string
  priceInMain :: jsnum
  category :: string
  paymentMethod :: string
  createdAt :: string

text \<open>The form holds the price as the text of the input field.\<close>

record FormData =
  dateF :: string
  nameF :: string
  priceF :: string
  currencyF :: string
  categoryF :: string
  paymentMethodF :: string

text \<open>
  The component state of the local variant. \<open>alerts\<close> collects the messages passed to
  \<open>alert\<close>, oldest first.
\<close>

record App =
  transactions :: "Transaction list"
  mainCurrency :: string
  showAddForm :: bool
  editingTransaction :: "Transaction option"
  formData :: FormData
  alerts :: "string list"

text \<open>
  What the handlers read from the clock: \<open>Date.now().toString()\<close> and
  \<open>new Date().toISOString()\<close>.
\<close>

record Clock =
  nowMs :: string
  nowIso :: string

text \<open>\<open>new Date().toISOString().split('T')[0]\<close>\<close>

definition today :: "Clock \<Rightarrow> string" where
  "today clk = takeWhile (\<lambda>c. c \<noteq> CHR ''T'') (nowIso clk)"

text \<open>\<open>a || b\<close> on strings: the empty string is falsy.\<close>

definition strOr :: "string \<Rightarrow> string \<Rightarrow> string" where
  "strOr a b = (if a \<noteq> [] then a else b)"

section \<open>Form controller and transaction store (local variant)\<close>

definition resetForm :: "Clock \<Rightarrow> App \<Rightarrow> App" where
  "resetForm clk st =
     st\<lparr>formData :=
          \<lparr>dateF = today clk, nameF = [], priceF = [], currencyF = mainCurrency st,
           categoryF = [], paymentMethodF = []\<rparr>,
        showAddForm := False,
        editingTransaction := None\<rparr>"

text \<open>The record that a valid submit builds from the form.\<close>

definition newTransaction :: "ExchangeRates \<Rightarrow> Clock \<Rightarrow> App \<Rightarrow> Transaction" where
  "newTransaction exchangeRates clk st =
     (let fd = formData st;
          pim = convertToMainCurrency exchangeRates (mainCurrency st)
                  (parseFloat (priceF fd)) (currencyF fd)
      in \<lparr>id' = (case editingTransaction st of
                   None \<Rightarrow> nowMs clk | Some e \<Rightarrow> strOr (id' e) (nowMs clk)),
          date = dateF fd,
          name = nameF fd,
          price = parseFloat (priceF fd),
          currency = currencyF fd,
          priceInMain = pim,
          category = categoryF fd,
          paymentMethod = paymentMethodF fd,
          createdAt = (case editingTransaction st of
                         None \<Rightarrow> nowIso clk | Some e \<Rightarrow> strOr (createdAt e) (nowIso clk))\<rparr>)"

definition handleAddTransaction :: "ExchangeRates \<Rightarrow> Clock \<Rightarrow> App \<Rightarrow> App" where
  "handleAddTransaction exchangeRates clk st =
     (if nameF (formData st) = [] \<or> priceF (formData st) = [] then
        st\<lparr>alerts := alerts st @ [''Please fill in name and price'']\<rparr>
      else
        resetForm clk
          (case editingTransaction st of
             Some e \<Rightarrow>
               st\<lparr>transactions :=
                    map (\<lambda>t. if id' t = id' e then newTransaction exchangeRates clk st else t)
                      (transactions st)\<rparr>
           | None \<Rightarrow>
               st\<lparr>transactions := transactions st @ [newTransaction exchangeRates clk st]\<rparr>))"

definition handleEdit :: "Transaction \<Rightarrow> App \<Rightarrow> App" where
  "handleEdit transaction st =
     st\<lparr>editingTransaction := Some transaction,
        formData :=
          \<lparr>dateF = date transaction, nameF = name transaction,
           priceF = numToString (price transaction), currencyF = currency transaction,
           categoryF = strOr (category transaction) [],
           paymentMethodF = strOr (paymentMethod transaction) []\<rparr>,
        showAddForm := True\<rparr>"

text \<open>\<open>confirmed\<close> is the answer of the \<open>confirm\<close> dialog.\<close>

definition handleDelete :: "bool \<Rightarrow> string \<Rightarrow> App \<Rightarrow> App" where
  "handleDelete confirmed i st =
     (if confirmed then st\<lparr>transactions := filter (\<lambda>t. id' t \<noteq> i) (transactions st)\<rparr>
      else st)"

section \<open>Form controller and transaction store (synced variant)\<close>

text \<open>
  A document of the remote collection: the fields of a transaction and the owner;
  \<open>id'\<close> is the document id. The collection is the list of its documents.
\<close>

record Document = Transaction +
  userId :: string

text \<open>
  The two writes of the document database, as its interface describes them: \<open>addDoc\<close>
  stores the data under a new id; \<open>updateDoc\<close> overwrites the fields it is given in the
  document of that id and fails when there is none. The data is given as a function of
  the id, since it carries every field but the id.
\<close>

definition addDoc :: "string \<Rightarrow> (string \<Rightarrow> Document) \<Rightarrow> Document list \<Rightarrow> Document list" where
  "addDoc newId data coll = coll @ [data newId]"

definition updateDoc ::
  "string \<Rightarrow> (string \<Rightarrow> Document) \<Rightarrow> Document list \<Rightarrow> Document list option" where
  "updateDoc i data coll =
     (if i \<in> set (map id' coll)
      then Some (map (\<lambda>d. if id' d = i then data i else d) coll)
      else None)"

text \<open>
  \<open>serverTime\<close> is the value that \<open>serverTimestamp()\<close> resolves to at the write, \<open>newId\<close>
  the id that \<open>addDoc\<close> draws, \<open>user\<close> the uid of the session if there is one.
\<close>

definition handleAddTransactionSynced ::
  "ExchangeRates \<Rightarrow> Clock \<Rightarrow> string \<Rightarrow> string \<Rightarrow> string option \<Rightarrow> App \<Rightarrow> Document list
     \<Rightarrow> App \<times> Document list" where
  "handleAddTransactionSynced exchangeRates clk serverTime newId user st coll =
     (let fd = formData st in
      if nameF fd = [] \<or> priceF fd = [] \<or> user = None then
        (st\<lparr>alerts := alerts st @ [''Please fill in name and price'']\<rparr>, coll)
      else
        let pim = convertToMainCurrency exchangeRates (mainCurrency st)
                    (parseFloat (priceF fd)) (currencyF fd);
            transactionData = (\<lambda>i.
              \<lparr>id' = i,
               date = dateF fd,
               name = nameF fd,
               price = parseFloat (priceF fd),
               currency = currencyF fd,
               priceInMain = pim,
               category = categoryF fd,
               paymentMethod = paymentMethodF fd,
               createdAt = serverTime,
               userId = the user\<rparr>)
        in case editingTransaction st of
             Some e \<Rightarrow>
               (case updateDoc (id' e) transactionData coll of
                  Some coll' \<Rightarrow> (resetForm clk st, coll')
                | None \<Rightarrow>
                    (st\<lparr>alerts := alerts st @ [''Error saving transaction. Please try again.'']\<rparr>,
                     coll))
           | None \<Rightarrow> (resetForm clk st, addDoc newId transactionData coll))"

section \<open>Import and export\<close>

text \<open>
  The CSV text is written by \<open>Papa.unparse\<close> and read by \<open>Papa.parse\<close> with
  \<open>header: true\<close>. The library is not part of the repository: what the model keeps of it
  is that \<open>unparse\<close> writes the header row from the keys and every cell as its string
  (a number by \<open>toString\<close>), and that \<open>parse\<close> delivers every row as an object of strings
  keyed by the header, a key being absent when the row is too short or the file lacks the
  column.
\<close>

type_synonym Row = "string \<rightharpoonup> string"

text \<open>The rows of the exported table, cells in column order.\<close>

definition exportRow :: "string \<Rightarrow> Transaction \<Rightarrow> (string \<times> string) list" where
  "exportRow mainCur t =
     [(''Date'', date t),
      (''Name'', name t),
      (''Price'', numToString (price t)),
      (''Currency'', currency t),
      (''Price in Main'', toFixed2 (priceInMain t)),
      (''Main Currency'', mainCur),
      (''Category'', category t),
      (''Payment Method'', paymentMethod t)]"

definition exportToCSV :: "App \<Rightarrow> (string \<times> string) list list" where
  "exportToCSV st = map (exportRow (mainCurrency st)) (transactions st)"

text \<open>Reading an exported table back: each row as an object keyed by the header.\<close>

definition parsedRows :: "(string \<times> string) list list \<Rightarrow> Row list" where
  "parsedRows table = map map_of table"

text \<open>Truthiness of a cell: \<open>undefined\<close> and the empty string are falsy.\<close>

definition cellTruthy :: "Row \<Rightarrow> string \<Rightarrow> bool" where
  "cellTruthy row k = (case row k of None \<Rightarrow> False | Some s \<Rightarrow> s \<noteq> [])"

text \<open>\<open>row[k] || d\<close>\<close>

definition cellOr :: "Row \<Rightarrow> string \<Rightarrow> string \<Rightarrow> string" where
  "cellOr row k d = (case row k of None \<Rightarrow> d | Some s \<Rightarrow> strOr s d)"

text \<open>\<open>parseFloat(row[k])\<close>: an absent cell is converted to the string \<open>undefined\<close> first.\<close>

definition cellFloat :: "Row \<Rightarrow> string \<Rightarrow> jsnum" where
  "cellFloat row k = parseFloat (case row k of None \<Rightarrow> ''undefined'' | Some s \<Rightarrow> s)"

definition rowAccepted :: "Row \<Rightarrow> bool" where
  "rowAccepted row = (cellTruthy row ''Date'' \<and> cellTruthy row ''Name'' \<and> cellTruthy row ''Price'')"

text \<open>
  The record made of an accepted row. \<open>rnd\<close> is the text of \<open>Math.random()\<close> for this
  row. A cell that passed the filter is present.
\<close>

definition importRow :: "string \<Rightarrow> Clock \<Rightarrow> string \<Rightarrow> Row \<Rightarrow> Transaction" where
  "importRow mainCur clk rnd row =
     \<lparr>id' = nowMs clk @ rnd,
      date = cellOr row ''Date'' [],
      name = cellOr row ''Name'' [],
      price = cellFloat row ''Price'',
      currency = cellOr row ''Currency'' mainCur,
      priceInMain = orElse (cellFloat row ''Price in Main'') (cellFloat row ''Price''),
      category = cellOr row ''Category'' [],
      paymentMethod = cellOr row ''Payment Method'' [],
      createdAt = nowIso clk\<rparr>"

text \<open>
  \<open>results.data.filter(...).map(...)\<close>: the \<open>k\<close>-th accepted row reads the clock
  \<open>clk k\<close> and draws \<open>rnd k\<close>.
\<close>

definition importedRecords ::
  "string \<Rightarrow> (nat \<Rightarrow> Clock) \<Rightarrow> (nat \<Rightarrow> string) \<Rightarrow> Row list \<Rightarrow> Transaction list" where
  "importedRecords mainCur clk rnd rows =
     map (\<lambda>(k, row). importRow mainCur (clk k) (rnd k) row)
       (enumerate 0 (filter rowAccepted rows))"

definition importFromCSV ::
  "(nat \<Rightarrow> Clock) \<Rightarrow> (nat \<Rightarrow> string) \<Rightarrow> Row list \<Rightarrow> App \<Rightarrow> App" where
  "importFromCSV clk rnd rows st =
     (let imported = importedRecords (mainCurrency st) clk rnd rows in
      st\<lparr>transactions := transactions st @ imported,
         alerts := alerts st @ [''Imported '' @ showNat (length imported) @ '' transactions'']\<rparr>)"

text \<open>Exporting a list and importing the file again, the main currency unchanged.\<close>

definition roundTrip ::
  "string \<Rightarrow> (nat \<Rightarrow> Clock) \<Rightarrow> (nat \<Rightarrow> string) \<Rightarrow> Transaction list \<Rightarrow> Transaction list" where
  "roundTrip mainCur clk rnd ts =
     importedRecords mainCur clk rnd (parsedRows (map (exportRow mainCur) ts))"

section \<open>Aggregator\<close>

definition totalSpent :: "Transaction list \<Rightarrow> jsnum" where
  "totalSpent ts = foldl (\<lambda>sum t. jsadd sum (priceInMain t)) (Fin 0) ts"

definition avgTransaction :: "Transaction list \<Rightarrow> jsnum" where
  "avgTransaction ts =
     (if length ts > 0 then jsdiv (totalSpent ts) (Fin (of_nat (length ts))) else Fin 0)"

text \<open>
  One step of the \<open>reduce\<close> of \<open>spendingByCurrency\<close>: \<open>find\<close> returns the first entry of
  the currency, whose amount is then updated in place; with none, an entry is pushed.
\<close>

fun addAmount :: "string \<Rightarrow> jsnum \<Rightarrow> (string \<times> jsnum) list \<Rightarrow> (string \<times> jsnum) list" where
  "addAmount c p [] = []"
| "addAmount c p ((c', a) # acc) =
     (if c' = c then (c', jsadd a p) # acc else (c', a) # addAmount c p acc)"

definition currencyStep :: "(string \<times> jsnum) list \<Rightarrow> Transaction \<Rightarrow> (string \<times> jsnum) list" where
  "currencyStep acc t =
     (case find (\<lambda>a. fst a = currency t) acc of
        Some existing \<Rightarrow> addAmount (currency t) (price t) acc
      | None \<Rightarrow> acc @ [(currency t, price t)])"

definition spendingByCurrency :: "Transaction list \<Rightarrow> (string \<times> jsnum) list" where
  "spendingByCurrency ts = foldl currencyStep [] ts"

text \<open>The sum of a list of numbers, and the values of a list in the order of their first occurrence.\<close>

primrec jssum :: "jsnum list \<Rightarrow> jsnum" where
  "jssum [] = Fin 0"
| "jssum (x # xs) = jsadd x (jssum xs)"

primrec firsts :: "'a list \<Rightarrow> 'a list" where
  "firsts [] = []"
| "firsts (x # xs) = x # filter (\<lambda>y. y \<noteq> x) (firsts xs)"

text \<open>The sum of the prices of the records of one currency.\<close>

definition groupSum :: "Transaction list \<Rightarrow> string \<Rightarrow> jsnum" where
  "groupSum ts c = jssum (map price (filter (\<lambda>t. currency t = c) ts))"

section \<open>Sample values\<close>

text \<open>The state of the component when it is mounted with nothing stored.\<close>

definition initialApp :: "Clock \<Rightarrow> App" where
  "initialApp clk =
     \<lparr>transactions = [], mainCurrency = ''EUR'', showAddForm = False,
      editingTransaction = None,
      formData = \<lparr>dateF = today clk, nameF = [], priceF = [], currencyF = ''EUR'',
                  categoryF = [], paymentMethodF = []\<rparr>,
      alerts = []\<rparr>"

definition clock1 :: Clock where
  "clock1 = \<lparr>nowMs = ''1709632800000'', nowIso = ''2024-03-05T10:00:00.000Z''\<rparr>"

definition mkTx :: "string \<Rightarrow> string \<Rightarrow> jsnum \<Rightarrow> string \<Rightarrow> jsnum \<Rightarrow> Transaction" where
  "mkTx i n p c pim =
     \<lparr>id' = i, date = ''2024-01-01'', name = n, price = p, currency = c, priceInMain = pim,
      category = ''Food'', paymentMethod = ''Cash'', createdAt = ''2024-01-01T09:00:00.000Z''\<rparr>"

definition mkDoc :: "string \<Rightarrow> string \<Rightarrow> jsnum \<Rightarrow> string \<Rightarrow> jsnum \<Rightarrow> string \<Rightarrow> Document" where
  "mkDoc i n p c pim uid =
     \<lparr>id' = i, date = ''2024-01-01'', name = n, price = p, currency = c, priceInMain = pim,
      category = ''Food'', paymentMethod = ''Cash'', createdAt = ''2024-01-01T09:00:00.000Z'',
      userId = uid\<rparr>"

text \<open>The form filled in for a coffee of 1 USD on 2024-01-01.\<close>

definition coffeeForm :: FormData where
  "coffeeForm =
     \<lparr>dateF = ''2024-01-01'', nameF = ''Coffee'', priceF = ''1'', currencyF = ''USD'',
      categoryF = ''Food'', paymentMethodF = ''Cash''\<rparr>"

text \<open>The form filled in for a lunch of 10 EUR on 2024-01-01.\<close>

definition lunchForm :: FormData where
  "lunchForm =
     \<lparr>dateF = ''2024-01-01'', nameF = ''Lunch'', priceF = ''10'', currencyF = ''EUR'',
      categoryF = ''Food'', paymentMethodF = ''Cash''\<rparr>"

section \<open>Properties of numbers and strings\<close>

lemma digit_cases: "d < 10 \<Longrightarrow> d \<in> {0, 1, 2, 3, 4, 5, 6, 7, 8, 9::nat}"
  by auto

lemma digitChar_table:
  "digitChar 0 = CHR ''0''" "digitChar (Suc 0) = CHR ''1''" "digitChar 2 = CHR ''2''"
  "digitChar 3 = CHR ''3''" "digitChar 4 = CHR ''4''" "digitChar 5 = CHR ''5''"
  "digitChar 6 = CHR ''6''" "digitChar 7 = CHR ''7''" "digitChar 8 = CHR ''8''"
  "digitChar 9 = CHR ''9''"
  by code_simp+

lemma isDigit_digitChar: "d < 10 \<Longrightarrow> isDigit (digitChar d)"
  by (drule digit_cases) (auto simp: isDigit_def digitChar_table)

lemma digitVal_digitChar: "d < 10 \<Longrightarrow> digitVal (digitChar d) = d"
  by (drule digit_cases) (auto simp: digitVal_def digitChar_table)

lemma showNat_digits: "c \<in> set (showNat n) \<Longrightarrow> isDigit c"
proof (induction n arbitrary: c rule: showNat.induct)
  case (1 n)
  then show ?case
    by (subst (asm) (2) showNat.simps) (auto simp: isDigit_digitChar split: if_splits)
qed

lemma showNat_nonempty [simp]: "showNat n \<noteq> []"
  by (subst showNat.simps) simp

lemma digitsVal_foldl:
  "foldl (\<lambda>acc c. acc * 10 + digitVal c) a ds = a * 10 ^ length ds + digitsVal ds"
  unfolding digitsVal_def
proof (induction ds arbitrary: a)
  case Nil
  show ?case by simp
next
  case (Cons c cs)
  from Cons.IH [of "a * 10 + digitVal c"] Cons.IH [of "digitVal c"]
  show ?case by (simp add: algebra_simps)
qed

lemma digitsVal_Nil [simp]: "digitsVal [] = 0"
  by (simp add: digitsVal_def)

lemma digitsVal_append: "digitsVal (a @ b) = digitsVal a * 10 ^ length b + digitsVal b"
proof -
  have "digitsVal (a @ b) = foldl (\<lambda>acc c. acc * 10 + digitVal c) (digitsVal a) b"
    by (simp add: digitsVal_def)
  then show ?thesis by (simp only: digitsVal_foldl)
qed

lemma digitsVal_single [simp]: "digitsVal [c] = digitVal c"
  by (simp add: digitsVal_def)

lemma digitsVal_showNat: "digitsVal (showNat n) = n"
proof (induction n rule: showNat.induct)
  case (1 n)
  show ?case
  proof (cases "n < 10")
    case True
    then show ?thesis by (subst showNat.simps) (simp add: digitVal_digitChar)
  next
    case False
    then have "digitsVal (showNat (n div 10)) = n div 10" using 1 by simp
    with False show ?thesis
      by (subst showNat.simps) (simp add: digitsVal_append digitVal_digitChar)
  qed
qed

lemma digitsVal_zeros [simp]: "digitsVal (replicate n (CHR ''0'')) = 0"
  by (induction n) (simp_all add: digitsVal_append [of "[CHR ''0'']", simplified] digitVal_def)

lemma digitsVal_Cons: "digitsVal (c # ds) = digitVal c * 10 ^ length ds + digitsVal ds"
  using digitsVal_append [of "[c]" ds] by simp

lemma digitsVal_zeros_append [simp]: "digitsVal (replicate n (CHR ''0'') @ ds) = digitsVal ds"
  by (simp add: digitsVal_append)

lemma notDigit [simp]:
  "\<not> isDigit (CHR ''.'')" "\<not> isDigit (CHR ''e'')" "\<not> isDigit (CHR ''-'')" "\<not> isDigit (CHR ''+'')"
  "isDigit (CHR ''0'')"
  by (simp_all add: isDigit_def)

lemma digit_not_special:
  "isDigit c \<Longrightarrow> \<not> isWhite c \<and> c \<noteq> CHR ''-'' \<and> c \<noteq> CHR ''+'' \<and> c \<noteq> CHR ''I'' \<and> c \<noteq> CHR ''.''"
  by (auto simp: isDigit_def isWhite_def)

lemma parseExponent_Nil [simp]: "parseExponent [] = 0"
  by (simp add: parseExponent_def)

lemma takeWhile_digits_all: "\<forall>c\<in>set ds. isDigit c \<Longrightarrow> takeWhile isDigit ds = ds"
  by simp

lemma parseExponent_plus:
  "ed \<noteq> [] \<Longrightarrow> \<forall>c\<in>set ed. isDigit c \<Longrightarrow>
   parseExponent (CHR ''e'' # CHR ''+'' # ed) = int (digitsVal ed)"
  by (simp add: parseExponent_def Let_def takeWhile_digits_all)

lemma parseExponent_minus:
  "ed \<noteq> [] \<Longrightarrow> \<forall>c\<in>set ed. isDigit c \<Longrightarrow>
   parseExponent (CHR ''e'' # CHR ''-'' # ed) = - int (digitsVal ed)"
  by (simp add: parseExponent_def Let_def takeWhile_digits_all)

text \<open>A rest that is empty or starts with the exponent mark.\<close>

lemma readDecimal_int:
  assumes "ip \<noteq> []" and "\<forall>c\<in>set ip. isDigit c" and "ex = [] \<or> (\<exists>r. ex = CHR ''e'' # r)"
  shows "readDecimal (ip @ ex) = Some (scale10 (of_nat (digitsVal ip)) (parseExponent ex))"
proof -
  from assms(3) have t: "takeWhile isDigit ex = []" and d: "dropWhile isDigit ex = ex"
    by auto
  from assms(2) have "takeWhile isDigit (ip @ ex) = ip" "dropWhile isDigit (ip @ ex) = ex"
    using t d by simp_all
  with assms(1,3) show ?thesis
    by (auto simp: readDecimal_def)
qed

lemma readDecimal_frac:
  assumes "ip \<noteq> []" and "\<forall>c\<in>set ip. isDigit c" and "\<forall>c\<in>set fp. isDigit c"
    and "ex = [] \<or> (\<exists>r. ex = CHR ''e'' # r)"
  shows "readDecimal (ip @ CHR ''.'' # fp @ ex) =
           Some (scale10 (of_nat (digitsVal (ip @ fp))) (parseExponent ex - int (length fp)))"
proof -
  from assms(4) have t: "takeWhile isDigit ex = []" and d: "dropWhile isDigit ex = ex"
    by auto
  from assms(2) have 1: "takeWhile isDigit (ip @ CHR ''.'' # fp @ ex) = ip"
    and 2: "dropWhile isDigit (ip @ CHR ''.'' # fp @ ex) = CHR ''.'' # fp @ ex"
    by simp_all
  from assms(3) have 3: "takeWhile isDigit (fp @ ex) = fp" and 4: "dropWhile isDigit (fp @ ex) = ex"
    using t d by simp_all
  show ?thesis
    using assms(1) by (simp add: readDecimal_def 1 2 3 4)
qed

lemma parseFloat_unsigned:
  assumes "u = c # r" and "isDigit c"
  shows "parseFloat u = (case readDecimal u of None \<Rightarrow> NaN | Some v \<Rightarrow> Fin v)"
  using assms digit_not_special [of c]
  by (simp add: parseFloat_def split: option.split)

lemma parseFloat_negative:
  assumes "u = c # r" and "isDigit c"
  shows "parseFloat (CHR ''-'' # u) = (case readDecimal u of None \<Rightarrow> NaN | Some v \<Rightarrow> Fin (- v))"
  using assms digit_not_special [of c]
  by (simp add: parseFloat_def isWhite_def split: option.split)

lemma scale10_powi: "scale10 m e = m * power_int 10 e"
  by (simp add: scale10_def power_int_def field_simps)

lemma scale10_0 [simp]: "scale10 m 0 = m"
  by (simp add: scale10_def)

lemma scale10_shift: "scale10 (m * 10 ^ j) e = scale10 m (e + int j)"
  by (simp add: scale10_powi power_int_add)

lemma set_take_digits: "\<forall>c\<in>set ds. isDigit c \<Longrightarrow> \<forall>c\<in>set (take n ds). isDigit c"
  by (auto dest: in_set_takeD)

lemma set_drop_digits: "\<forall>c\<in>set ds. isDigit c \<Longrightarrow> \<forall>c\<in>set (drop n ds). isDigit c"
  by (auto dest: in_set_dropD)

lemma readDecimal_layout:
  assumes ne: "ds \<noteq> []" and dg: "\<forall>c\<in>set ds. isDigit c"
  shows "readDecimal (layout ds n) =
           Some (scale10 (of_nat (digitsVal ds)) (n - int (length ds)))"
proof -
  let ?k = "int (length ds)"
  have es: "\<And>z. \<forall>c\<in>set (showNat z). isDigit c" by (auto dest: showNat_digits)
  consider (a) "?k \<le> n \<and> n \<le> 21"
    | (b) "\<not> (?k \<le> n \<and> n \<le> 21)" "0 < n \<and> n \<le> 21"
    | (c) "\<not> (?k \<le> n \<and> n \<le> 21)" "\<not> (0 < n \<and> n \<le> 21)" "- 6 < n \<and> n \<le> 0"
    | (d) "\<not> (?k \<le> n \<and> n \<le> 21)" "\<not> (0 < n \<and> n \<le> 21)" "\<not> (- 6 < n \<and> n \<le> 0)"
    by blast
  then show ?thesis
  proof cases
    case a
    let ?z = "replicate (nat (n - ?k)) (CHR ''0'')"
    have "readDecimal ((ds @ ?z) @ []) =
            Some (scale10 (of_nat (digitsVal (ds @ ?z))) (parseExponent []))"
      using ne dg by (intro readDecimal_int) auto
    moreover have "scale10 (of_nat (digitsVal (ds @ ?z))) 0
                     = scale10 (of_nat (digitsVal ds)) (n - ?k)"
      using a by (simp add: digitsVal_append scale10_def)
    ultimately show ?thesis using a by (simp add: layout_def)
  next
    case b
    then have nk: "nat n < length ds" and n0: "0 < nat n" by auto
    have "readDecimal (take (nat n) ds @ CHR ''.'' # drop (nat n) ds @ []) =
            Some (scale10 (of_nat (digitsVal (take (nat n) ds @ drop (nat n) ds)))
                    (parseExponent [] - int (length (drop (nat n) ds))))"
      using ne dg n0 by (intro readDecimal_frac set_take_digits set_drop_digits) auto
    moreover have "int (length (drop (nat n) ds)) = ?k - n" using nk b by simp
    ultimately show ?thesis using b by (simp add: layout_def)
  next
    case c
    let ?z = "replicate (nat (- n)) (CHR ''0'')"
    have "readDecimal (''0'' @ CHR ''.'' # (?z @ ds) @ []) =
            Some (scale10 (of_nat (digitsVal (''0'' @ ?z @ ds)))
                    (parseExponent [] - int (length (?z @ ds))))"
      using dg by (intro readDecimal_frac) auto
    moreover have "digitsVal (''0'' @ ?z @ ds) = digitsVal ds"
      by (simp add: digitsVal_Cons digitVal_def)
    moreover have "- int (length (?z @ ds)) = n - ?k" using c by simp
    ultimately show ?thesis using c by (simp add: layout_def)
  next
    case d
    let ?ex = "n - 1"
    let ?es = "(if ?ex < 0 then ''-'' else ''+'') @ showNat (nat \<bar>?ex\<bar>)"
    have pe: "parseExponent (CHR ''e'' # ?es) = ?ex"
      using es by (auto simp: parseExponent_plus parseExponent_minus digitsVal_showNat)
    show ?thesis
    proof (cases "?k = 1")
      case True
      have lay: "layout ds n = ds @ CHR ''e'' # ?es"
        using d True by (auto simp: layout_def Let_def)
      have "readDecimal (ds @ CHR ''e'' # ?es) =
              Some (scale10 (of_nat (digitsVal ds)) (parseExponent (CHR ''e'' # ?es)))"
        using ne dg by (intro readDecimal_int) auto
      then have "readDecimal (layout ds n) = Some (scale10 (of_nat (digitsVal ds)) ?ex)"
        by (simp only: lay pe)
      with True show ?thesis by simp
    next
      case False
      with ne have k2: "1 < length ds" by (cases ds) auto
      have lay: "layout ds n = take 1 ds @ CHR ''.'' # drop 1 ds @ CHR ''e'' # ?es"
        using d False by (auto simp: layout_def Let_def)
      have "readDecimal (take 1 ds @ CHR ''.'' # drop 1 ds @ CHR ''e'' # ?es) =
              Some (scale10 (of_nat (digitsVal (take 1 ds @ drop 1 ds)))
                      (parseExponent (CHR ''e'' # ?es) - int (length (drop 1 ds))))"
        using ne dg by (intro readDecimal_frac set_take_digits set_drop_digits) auto
      then have "readDecimal (layout ds n) =
              Some (scale10 (of_nat (digitsVal (take 1 ds @ drop 1 ds)))
                      (?ex - int (length (drop 1 ds))))"
        by (simp only: lay pe)
      moreover have "?ex - int (length (drop 1 ds)) = n - ?k" using k2 by simp
      ultimately show ?thesis by (simp only: append_take_drop_id)
    qed
  qed
qed

lemma layout_starts_with_digit:
  assumes "ds \<noteq> []" and "\<forall>c\<in>set ds. isDigit c"
  shows "\<exists>c r. layout ds n = c # r \<and> isDigit c"
proof -
  from assms obtain c r where ds: "ds = c # r" and c: "isDigit c" by (cases ds) auto
  show ?thesis
    by (cases "nat n") (auto simp: layout_def ds c Let_def)
qed

lemma strip25_value:
  "strip25 p q e = Some (m, e') \<Longrightarrow>
   rat_of_nat m / 10 ^ e' = rat_of_nat p / rat_of_nat q / 10 ^ e"
proof (induction p q e rule: strip25.induct)
  case (1 p q e)
  show ?case
  proof (cases "q = 0 \<or> q = 1")
    case True
    with 1(3) show ?thesis by (subst (asm) strip25.simps) (auto split: if_splits)
  next
    case False
    show ?thesis
    proof (cases "2 dvd q")
      case True
      then obtain k where k: "q = 2 * k" by (elim dvdE)
      from 1(3) False True have "strip25 (p * 5) (q div 2) (Suc e) = Some (m, e')"
        by (subst (asm) strip25.simps) simp
      with 1(1) False True
      have "rat_of_nat m / 10 ^ e' = rat_of_nat (p * 5) / rat_of_nat (q div 2) / 10 ^ Suc e"
        by simp
      then show ?thesis using False by (simp add: k)
    next
      case n2: False
      show ?thesis
      proof (cases "5 dvd q")
        case True
        then obtain k where k: "q = 5 * k" by (elim dvdE)
        from 1(3) False n2 True have "strip25 (p * 2) (q div 5) (Suc e) = Some (m, e')"
          by (subst (asm) strip25.simps) simp
        with 1(2) False n2 True
        have "rat_of_nat m / 10 ^ e' = rat_of_nat (p * 2) / rat_of_nat (q div 5) / 10 ^ Suc e"
          by simp
        then show ?thesis using False by (simp add: k)
      next
        case n5: False
        with 1(3) False n2 show ?thesis by (subst (asm) strip25.simps) simp
      qed
    qed
  qed
qed

lemma stripZeros_value:
  "stripZeros s t = (s', t') \<Longrightarrow> scale10 (of_nat s') t' = scale10 (of_nat s) t"
proof (induction s t rule: stripZeros.induct)
  case (1 s t)
  show ?case
  proof (cases "s \<noteq> 0 \<and> 10 dvd s")
    case True
    then obtain k where k: "s = 10 * k" by (auto simp: dvd_def)
    from 1(2) True have "stripZeros (s div 10) (t + 1) = (s', t')"
      by (subst (asm) stripZeros.simps) simp
    with 1(1) True have "scale10 (of_nat s') t' = scale10 (of_nat (s div 10)) (t + 1)"
      by simp
    also have "\<dots> = scale10 (of_nat s) t"
      using scale10_shift [of "of_nat k" 1 t] by (simp add: k mult.commute)
    finally show ?thesis .
  next
    case False
    with 1(2) show ?thesis by (subst (asm) stripZeros.simps) auto
  qed
qed

lemma decompose_value:
  assumes "0 < x" and "decompose x = Some (s, t)"
  shows "scale10 (of_nat s) t = x"
proof -
  obtain p q where pq: "quotient_of x = (p, q)" by (cases "quotient_of x")
  then have q: "0 < q" and x: "x = of_int p / of_int q"
    by (simp_all add: quotient_of_denom_pos quotient_of_div)
  with assms(1) have p: "0 < p" by (simp add: zero_less_divide_iff)
  from assms(2) pq obtain m e where
    st: "strip25 (nat p) (nat q) 0 = Some (m, e)" and sz: "stripZeros m (- int e) = (s, t)"
    by (auto simp: decompose_def split: option.splits)
  from strip25_value [OF st] p q have "rat_of_nat m / 10 ^ e = x"
    by (simp add: x)
  moreover have "scale10 (of_nat m) (- int e) = rat_of_nat m / 10 ^ e"
    by (simp add: scale10_def)
  ultimately show ?thesis using stripZeros_value [OF sz] by simp
qed

lemma readDecimal_posToString:
  assumes "0 < x" and "decompose x \<noteq> None"
  shows "readDecimal (posToString x) = Some x
         \<and> (\<exists>c r. posToString x = c # r \<and> isDigit c)"
proof -
  from assms(2) obtain s t where d: "decompose x = Some (s, t)" by auto
  let ?ds = "showNat s"
  have dg: "\<forall>c\<in>set ?ds. isDigit c" by (auto dest: showNat_digits)
  have p: "posToString x = layout ?ds (int (length ?ds) + t)"
    by (simp add: posToString_def d Let_def)
  have "readDecimal (posToString x) = Some (scale10 (of_nat s) t)"
    using readDecimal_layout [OF showNat_nonempty dg]
    by (simp add: p digitsVal_showNat)
  with decompose_value [OF assms(1) d] layout_starts_with_digit [OF showNat_nonempty dg]
  show ?thesis by (simp add: p)
qed

lemma parseFloat_numToString:
  assumes "representable x"
  shows "parseFloat (numToString x) = x"
proof (cases x)
  case (Fin r)
  show ?thesis
  proof (cases "r = 0")
    case True
    have "parseFloat ''0'' = Fin 0" by code_simp
    with True Fin show ?thesis by simp
  next
    case False
    with assms Fin have dec: "decompose \<bar>r\<bar> \<noteq> None" and pos: "0 < \<bar>r\<bar>" by simp_all
    from readDecimal_posToString [OF pos dec] obtain c u where
      rd: "readDecimal (posToString \<bar>r\<bar>) = Some \<bar>r\<bar>"
      and hd: "posToString \<bar>r\<bar> = c # u" "isDigit c" by blast
    show ?thesis
    proof (cases "r < 0")
      case True
      with parseFloat_negative [OF hd] rd Fin False show ?thesis by simp
    next
      case nn: False
      with parseFloat_unsigned [OF hd] rd Fin False show ?thesis by simp
    qed
  qed
next
  case PInf
  have "parseFloat ''Infinity'' = PInf" by code_simp
  with PInf show ?thesis by simp
next
  case NInf
  have "parseFloat ''-Infinity'' = NInf" by code_simp
  with NInf show ?thesis by simp
next
  case NaN
  have "parseFloat ''NaN'' = NaN" by code_simp
  with NaN show ?thesis by simp
qed

lemma readDecimal_fixed2:
  assumes k3: "3 \<le> length m" and dg: "\<forall>c\<in>set m. isDigit c"
  shows "readDecimal (take (length m - 2) m @ CHR ''.'' # drop (length m - 2) m) =
           Some (of_nat (digitsVal m) / 100)"
proof -
  let ?ip = "take (length m - 2) m"
  let ?fp = "drop (length m - 2) m"
  have ip: "?ip \<noteq> []" using k3 by (cases m) auto
  have len: "length ?fp = 2" using k3 by simp
  have "readDecimal (?ip @ CHR ''.'' # ?fp @ []) =
          Some (scale10 (of_nat (digitsVal (?ip @ ?fp))) (parseExponent [] - int (length ?fp)))"
    using ip dg by (intro readDecimal_frac set_take_digits set_drop_digits) auto
  then have "readDecimal (?ip @ CHR ''.'' # ?fp) = Some (scale10 (of_nat (digitsVal m)) (- 2))"
    by (simp only: append_take_drop_id len append_Nil2 parseExponent_Nil) simp
  then show ?thesis by (simp add: scale10_def)
qed

lemma fixed2_starts_with_digit:
  assumes k3: "3 \<le> length m" and dg: "\<forall>c\<in>set m. isDigit c"
  shows "\<exists>c r. take (length m - 2) m @ CHR ''.'' # drop (length m - 2) m = c # r \<and> isDigit c"
proof -
  from k3 obtain c r where m: "m = c # r" by (cases m) auto
  from k3 obtain j where j: "length m - 2 = Suc j" by (cases "length m - 2") auto
  from dg m have "isDigit c" by simp
  moreover have "take (length m - 2) m = c # take j r"
  proof -
    have "take (length m - 2) m = take (Suc j) m" by (simp only: j)
    also have "\<dots> = c # take j r" by (simp only: m take_Suc_Cons)
    finally show ?thesis .
  qed
  ultimately show ?thesis by simp
qed

lemma parseFloat_toFixed2:
  assumes "\<bar>x\<bar> < 10 ^ 21"
  shows "parseFloat (toFixed2 (Fin x)) = Fin (round2 x)"
proof -
  define n where "n = nat \<lfloor>\<bar>x\<bar> * 100 + 1 / 2\<rfloor>"
  define m where "m = (if length (showNat n) \<le> 2
      then replicate (3 - length (showNat n)) (CHR ''0'') @ showNat n else showNat n)"
  define body where "body = take (length m - 2) m @ CHR ''.'' # drop (length m - 2) m"
  have dg: "\<forall>c\<in>set m. isDigit c" by (auto simp: m_def dest: showNat_digits)
  have k3: "3 \<le> length m" by (auto simp: m_def)
  have val: "digitsVal m = n" by (simp add: m_def digitsVal_showNat)
  have rd: "readDecimal body = Some (of_nat n / 100)"
    using readDecimal_fixed2 [OF k3 dg] by (simp only: body_def val)
  from fixed2_starts_with_digit [OF k3 dg] obtain c r where hd: "body = c # r" "isDigit c"
    unfolding body_def by blast
  have nn: "rat_of_nat n = of_int \<lfloor>\<bar>x\<bar> * 100 + 1 / 2\<rfloor>"
    by (simp add: n_def)
  have tf: "toFixed2 (Fin x) = (if x < 0 then ''-'' else []) @ body"
    using assms by (simp add: Let_def not_le body_def m_def n_def)
  show ?thesis
  proof (cases "x < 0")
    case True
    then have "toFixed2 (Fin x) = CHR ''-'' # body" by (simp only: tf) simp
    with parseFloat_negative [OF hd] rd nn True show ?thesis
      by (simp add: round2_def)
  next
    case False
    then have "toFixed2 (Fin x) = body" by (simp only: tf) simp
    with parseFloat_unsigned [OF hd] rd nn False show ?thesis
      by (simp add: round2_def)
  qed
qed

lemma posToString_nonempty: "posToString x \<noteq> []"
proof -
  obtain s t where st: "(case decompose x of Some st \<Rightarrow> st | None \<Rightarrow> round17 x) = (s, t)"
    by (cases "case decompose x of Some st \<Rightarrow> st | None \<Rightarrow> round17 x")
  have dg: "\<forall>c\<in>set (showNat s). isDigit c" by (auto dest: showNat_digits)
  from layout_starts_with_digit [OF showNat_nonempty dg, of "int (length (showNat s)) + t"]
  obtain c r where "layout (showNat s) (int (length (showNat s)) + t) = c # r" by blast
  then show ?thesis by (simp add: posToString_def st Let_def)
qed

lemma numToString_nonempty: "numToString x \<noteq> []"
  by (cases x) (simp_all add: posToString_nonempty)

text \<open>Every value of \<open>parseFloat\<close> is representable.\<close>

lemma dvd5_cases: "(d::nat) dvd 5 \<Longrightarrow> d = 1 \<or> d = 5"
proof -
  assume d: "d dvd 5"
  then have "d \<le> 5" by (simp add: dvd_imp_le)
  then have "d \<in> {0, 1, 2, 3, 4, 5}" by auto
  with d show ?thesis by auto
qed

lemma coprime_10: "\<not> 2 dvd q \<Longrightarrow> \<not> 5 dvd q \<Longrightarrow> coprime q (10::nat)"
proof -
  assume n2: "\<not> 2 dvd q" and n5: "\<not> 5 dvd q"
  have c2: "coprime q 2" using n2 by simp
  have c5: "coprime q 5"
  proof (rule coprimeI)
    fix c assume "c dvd q" "c dvd 5"
    with n5 dvd5_cases [of c] show "is_unit c" by auto
  qed
  have "coprime q (2 * 5)" using c2 c5 by (simp only: coprime_mult_right_iff)
  then show ?thesis by simp
qed

lemma strip25_total: "0 < q \<Longrightarrow> q dvd 10 ^ j \<Longrightarrow> strip25 p q e \<noteq> None"
proof (induction p q e rule: strip25.induct)
  case (1 p q e)
  show ?case
  proof (cases "q = 1")
    case True
    then show ?thesis by (subst strip25.simps) simp
  next
    case False
    show ?thesis
    proof (cases "2 dvd q")
      case True
      with 1(3) have pos: "0 < q div 2" by (auto elim: dvdE)
      have "q div 2 dvd q" using True by (auto elim: dvdE)
      from this 1(4) have "q div 2 dvd 10 ^ j" by (rule dvd_trans)
      with 1(1) 1(3) False True pos have "strip25 (p * 5) (q div 2) (Suc e) \<noteq> None" by simp
      with 1(3) False True show ?thesis by (subst strip25.simps) simp
    next
      case n2: False
      show ?thesis
      proof (cases "5 dvd q")
        case True
        with 1(3) have pos: "0 < q div 5" by (auto elim: dvdE)
        have "q div 5 dvd q" using True by (auto elim: dvdE)
        from this 1(4) have "q div 5 dvd 10 ^ j" by (rule dvd_trans)
        with 1(2) 1(3) False n2 True pos have "strip25 (p * 2) (q div 5) (Suc e) \<noteq> None"
          by simp
        with 1(3) False n2 True show ?thesis by (subst strip25.simps) simp
      next
        case n5: False
        from coprime_10 [OF n2 n5] have "coprime q (10 ^ j)" by simp
        with 1(4) have "is_unit q" by (metis coprime_common_divisor dvd_refl)
        with False show ?thesis by simp
      qed
    qed
  qed
qed

lemma decompose_scaled:
  assumes "0 < n"
  shows "decompose (scale10 (of_nat n) E) \<noteq> None"
proof -
  let ?x = "scale10 (rat_of_nat n) E"
  obtain p q where pq: "quotient_of ?x = (p, q)" by (cases "quotient_of ?x")
  then have q: "0 < q" and x: "?x = of_int p / of_int q" and cop: "coprime p q"
    by (simp_all add: quotient_of_denom_pos quotient_of_div quotient_of_coprime)
  let ?j = "nat (- E)"
  obtain N :: int where N: "?x * 10 ^ ?j = of_int N"
  proof (cases "0 \<le> E")
    case True
    then have "?x * 10 ^ ?j = of_int (int n * 10 ^ nat E)" by (simp add: scale10_def)
    then show ?thesis by (rule that)
  next
    case False
    then have "?x * 10 ^ ?j = of_int (int n)" by (simp add: scale10_def)
    then show ?thesis by (rule that)
  qed
  from N x q have "rat_of_int (p * 10 ^ ?j) = rat_of_int (N * q)"
    by (simp add: field_simps)
  then have "p * 10 ^ ?j = N * q" by (simp only: of_int_eq_iff)
  then have "q dvd p * 10 ^ ?j" by simp
  with cop have "q dvd 10 ^ ?j"
    by (simp add: coprime_commute coprime_dvd_mult_right_iff)
  then have "nat q dvd nat (10 ^ ?j)" using q by (simp add: nat_dvd_iff)
  then have "nat q dvd 10 ^ ?j" by (simp add: nat_power_eq)
  with q have "strip25 (nat p) (nat q) 0 \<noteq> None" by (intro strip25_total) simp_all
  then show ?thesis by (auto simp: decompose_def pq)
qed

lemma readDecimal_representable: "readDecimal u = Some v \<Longrightarrow> v = 0 \<or> decompose v \<noteq> None"
proof -
  assume "readDecimal u = Some v"
  then obtain n E where v: "v = scale10 (of_nat n) E"
    by (auto simp: readDecimal_def Let_def split: if_splits)
  show ?thesis
  proof (cases "n = 0")
    case True
    with v show ?thesis by (simp add: scale10_def)
  next
    case False
    with v decompose_scaled [of n E] show ?thesis by simp
  qed
qed

lemma readDecimal_nonneg: "readDecimal u = Some v \<Longrightarrow> 0 \<le> v"
  by (auto simp: readDecimal_def Let_def scale10_def split: if_splits)

lemma parseFloat_representable: "representable (parseFloat s)"
proof (cases "parseFloat s")
  case (Fin x)
  then obtain v where v: "readDecimal (snd (stripSign (dropWhile isWhite s))) = Some v"
    and x: "x = v \<or> x = - v"
    by (auto simp: parseFloat_def case_prod_unfold Let_def split: if_splits option.splits)
  from readDecimal_nonneg [OF v] x have "\<bar>x\<bar> = v" by auto
  with readDecimal_representable [OF v] Fin show ?thesis by auto
qed simp_all

section \<open>Properties of the converter\<close>






text \<open>
  C3 fails on a currency that is missing from the table and whose name every object
  inherits. A CSV row with the currency \<open>constructor\<close> is imported as it is; opening the
  record for edit copies the currency into the form, and the submit converts 100 with the
  rate \<open>exchangeRates['constructor'] || 1\<close>, which is the inherited function and not 1:
  the stored \<open>priceInMain\<close> is \<open>NaN\<close>, where the missing rate defaulted to 1 gives 100.
\<close>

theorem convert_inherited_key_not_defaulted:
  "(let st1 = importFromCSV (\<lambda>k. clock1) (\<lambda>k. ''0.5'')
                [[''Date'' \<mapsto> ''2024-01-01'', ''Name'' \<mapsto> ''Taxi'', ''Price'' \<mapsto> ''100'',
                  ''Currency'' \<mapsto> ''constructor'']]
                (initialApp clock1);
        st2 = handleEdit (hd (transactions st1)) st1;
        st3 = handleAddTransaction exchangeRates0 clock1 st2
    in exchangeRates0 ''constructor'' = None
       \<and> currencyF (formData st2) = ''constructor''
       \<and> priceF (formData st2) = ''100''
       \<and> map priceInMain (transactions st3) = [NaN]
       \<and> convertToMainCurrency exchangeRates0 ''EUR'' (Fin 100) ''constructor'' = NaN
       \<and> jsmul (jsdiv (Fin 100) (Fin (rateMissing1 exchangeRates0 ''constructor'')))
            (Fin (rateMissing1 exchangeRates0 ''EUR'')) = Fin 100)"
  by code_simp

text \<open>
  For currencies that are keys of the table, or that no object inherits, and a table
  without a rate 0 (as both tables of the source are), the converter is the formula of
  the specification.
\<close>

lemma convert_no_zero_rate:
  assumes "\<forall>c r. tbl c = Some r \<longrightarrow> r \<noteq> 0"
    and "tbl cur \<noteq> None \<or> cur \<notin> set objectPrototypeKeys"
    and "tbl main \<noteq> None \<or> main \<notin> set objectPrototypeKeys"
  shows "convertToMainCurrency tbl main amount cur =
     jsmul (jsdiv amount (Fin (rateMissing1 tbl cur))) (Fin (rateMissing1 tbl main))"
  using assms
  by (auto simp: convertToMainCurrency_def rateOr1_def rateMissing1_def split: option.split)

section \<open>Properties of the store\<close>

text \<open>
  C5. In a list with unique ids, deleting by the id of a record \<open>t\<close> of the list (the
  dialog confirmed) gives the list without \<open>t\<close>: what stood before \<open>t\<close> followed by what
  stood after it, every other record in its place and unchanged.
\<close>

theorem handleDelete_removes_exactly:
  assumes "distinct (map id' (transactions st))" and "t \<in> set (transactions st)"
  shows "\<exists>pre post. transactions st = pre @ t # post
           \<and> transactions (handleDelete True (id' t) st) = pre @ post"
proof -
  from assms(2) obtain pre post where sp: "transactions st = pre @ t # post"
    by (auto dest: split_list)
  with assms(1) have "\<forall>u \<in> set pre \<union> set post. id' u \<noteq> id' t"
    by (auto simp: image_iff)
  then have "filter (\<lambda>u. id' u \<noteq> id' t) (pre @ t # post) = pre @ post"
    by (simp add: filter_id_conv)
  with sp show ?thesis by (auto simp: handleDelete_def)
qed

theorem handleDelete_removes_exactly_witness:
  "distinct (map id' [mkTx ''1'' ''Lunch'' (Fin 10) ''EUR'' (Fin 10),
                      mkTx ''2'' ''Taxi'' (Fin 20) ''EUR'' (Fin 20),
                      mkTx ''3'' ''Hotel'' (Fin 90) ''EUR'' (Fin 90)])
   \<and> (\<exists>pre post.
        [mkTx ''1'' ''Lunch'' (Fin 10) ''EUR'' (Fin 10),
         mkTx ''2'' ''Taxi'' (Fin 20) ''EUR'' (Fin 20),
         mkTx ''3'' ''Hotel'' (Fin 90) ''EUR'' (Fin 90)]
          = pre @ mkTx ''2'' ''Taxi'' (Fin 20) ''EUR'' (Fin 20) # post
        \<and> transactions (handleDelete True ''2''
             ((initialApp clock1)\<lparr>transactions :=
                [mkTx ''1'' ''Lunch'' (Fin 10) ''EUR'' (Fin 10),
                 mkTx ''2'' ''Taxi'' (Fin 20) ''EUR'' (Fin 20),
                 mkTx ''3'' ''Hotel'' (Fin 90) ''EUR'' (Fin 90)]\<rparr>)) = pre @ post)"
proof -
  let ?ts = "[mkTx ''1'' ''Lunch'' (Fin 10) ''EUR'' (Fin 10),
              mkTx ''2'' ''Taxi'' (Fin 20) ''EUR'' (Fin 20),
              mkTx ''3'' ''Hotel'' (Fin 90) ''EUR'' (Fin 90)]"
  let ?st = "(initialApp clock1)\<lparr>transactions := ?ts\<rparr>"
  have d: "distinct (map id' (transactions ?st))" by (simp add: mkTx_def)
  have m: "mkTx ''2'' ''Taxi'' (Fin 20) ''EUR'' (Fin 20) \<in> set (transactions ?st)" by simp
  have i: "id' (mkTx ''2'' ''Taxi'' (Fin 20) ''EUR'' (Fin 20)) = ''2''" by (simp add: mkTx_def)
  from handleDelete_removes_exactly [OF d m] d show ?thesis by (simp add: i)
qed

section \<open>Properties of the form controller\<close>

text \<open>
  C4, as stated, fails: the submit checks that name and price are not empty and nothing
  more. A record imported from a row whose Price is \<open>abc\<close> has the price \<open>NaN\<close>;
  opening it for edit puts the text \<open>NaN\<close> in the form, and a submit (here after the
  name was changed) passes the check although the price does not parse: no alert is
  raised, the record is replaced and the form closes.
\<close>

theorem submit_unparseable_price_counterexample:
  "(let st1 = importFromCSV (\<lambda>k. clock1) (\<lambda>k. ''0.5'')
                [[''Date'' \<mapsto> ''2024-01-01'', ''Name'' \<mapsto> ''Taxi'', ''Price'' \<mapsto> ''abc'']]
                (initialApp clock1);
        st2 = handleEdit (hd (transactions st1)) st1;
        st3 = st2\<lparr>formData := (formData st2)\<lparr>nameF := ''Taxi 2''\<rparr>\<rparr>;
        st4 = handleAddTransaction exchangeRates0 clock1 st3
    in priceF (formData st3) = ''NaN'' \<and> parseFloat (priceF (formData st3)) = NaN
       \<and> showAddForm st3 = True \<and> showAddForm st4 = False
       \<and> alerts st4 = alerts st3
       \<and> map name (transactions st3) = [''Taxi'']
       \<and> map name (transactions st4) = [''Taxi 2'']
       \<and> map price (transactions st4) = [NaN])"
  by code_simp

text \<open>
  C4, amended. On every submit the controller checks that name and price are not empty
  (whether the price parses is not checked). When one is empty, the failure is reported by
  an alert and nothing else changes: the store, the form, its fields and the edit target
  are as before. Otherwise the record built from the form, its price the \<open>parseFloat\<close> of
  the text, is appended, or replaces the records with the id of the edit target, and the
  form closes.
\<close>

theorem submit_validation:
  "(nameF (formData st) = [] \<or> priceF (formData st) = [] \<longrightarrow>
      handleAddTransaction rates clk st =
        st\<lparr>alerts := alerts st @ [''Please fill in name and price'']\<rparr>)
   \<and> (nameF (formData st) \<noteq> [] \<and> priceF (formData st) \<noteq> [] \<longrightarrow>
        showAddForm (handleAddTransaction rates clk st) = False
        \<and> editingTransaction (handleAddTransaction rates clk st) = None
        \<and> alerts (handleAddTransaction rates clk st) = alerts st
        \<and> transactions (handleAddTransaction rates clk st) =
             (case editingTransaction st of
                None \<Rightarrow> transactions st @ [newTransaction rates clk st]
              | Some e \<Rightarrow> map (\<lambda>u. if id' u = id' e then newTransaction rates clk st else u)
                           (transactions st))
        \<and> name (newTransaction rates clk st) = nameF (formData st)
        \<and> price (newTransaction rates clk st) = parseFloat (priceF (formData st)))"
  by (auto simp: handleAddTransaction_def newTransaction_def resetForm_def Let_def
      split: option.split)

theorem submit_validation_witness:
  "nameF (formData (initialApp clock1)) = []
   \<and> handleAddTransaction exchangeRates0 clock1 (initialApp clock1) =
       (initialApp clock1)\<lparr>alerts := [''Please fill in name and price'']\<rparr>
   \<and> nameF (formData ((initialApp clock1)\<lparr>formData := lunchForm\<rparr>)) \<noteq> []
   \<and> priceF (formData ((initialApp clock1)\<lparr>formData := lunchForm\<rparr>)) \<noteq> []
   \<and> transactions (handleAddTransaction exchangeRates0 clock1
        ((initialApp clock1)\<lparr>formData := lunchForm\<rparr>)) =
       [\<lparr>id' = ''1709632800000'', date = ''2024-01-01'', name = ''Lunch'', price = Fin 10,
         currency = ''EUR'', priceInMain = Fin 10, category = ''Food'',
         paymentMethod = ''Cash'', createdAt = ''2024-03-05T10:00:00.000Z''\<rparr>]"
proof -
  let ?st1 = "initialApp clock1"
  let ?st2 = "(initialApp clock1)\<lparr>formData := lunchForm\<rparr>"
  have a: "nameF (formData ?st1) = []" "alerts ?st1 = []"
    by (simp_all add: initialApp_def)
  have b: "nameF (formData ?st2) \<noteq> [] \<and> priceF (formData ?st2) \<noteq> []"
    by (simp add: lunchForm_def)
  have c: "newTransaction exchangeRates0 clock1 ?st2 =
       \<lparr>id' = ''1709632800000'', date = ''2024-01-01'', name = ''Lunch'', price = Fin 10,
         currency = ''EUR'', priceInMain = Fin 10, category = ''Food'',
         paymentMethod = ''Cash'', createdAt = ''2024-03-05T10:00:00.000Z''\<rparr>"
    by code_simp
  have d: "editingTransaction ?st2 = None" "transactions ?st2 = []"
    by (simp_all add: initialApp_def)
  from submit_validation [of ?st1 exchangeRates0 clock1] a
  have r1: "handleAddTransaction exchangeRates0 clock1 ?st1 =
              ?st1\<lparr>alerts := [''Please fill in name and price'']\<rparr>"
    by simp
  from submit_validation [of ?st2 exchangeRates0 clock1] b
  have r2: "transactions (handleAddTransaction exchangeRates0 clock1 ?st2) =
              (case editingTransaction ?st2 of
                 None \<Rightarrow> transactions ?st2 @ [newTransaction exchangeRates0 clock1 ?st2]
               | Some e \<Rightarrow> map (\<lambda>u. if id' u = id' e
                                     then newTransaction exchangeRates0 clock1 ?st2 else u)
                            (transactions ?st2))"
    by blast
  show ?thesis using a b r1 r2 c d by simp
qed

text \<open>The synced variant makes the same check, and asks for a session as well.\<close>

lemma submit_validation_synced:
  "nameF (formData st) = [] \<or> priceF (formData st) = [] \<or> user = None \<Longrightarrow>
   handleAddTransactionSynced rates clk serverTime newId user st coll =
     (st\<lparr>alerts := alerts st @ [''Please fill in name and price'']\<rparr>, coll)"
  by (simp add: handleAddTransactionSynced_def)

section \<open>Properties of editing\<close>

text \<open>
  In the local variant an edit replaces the records that have the id of the edit target
  by the record of the form, which keeps the id and \<open>createdAt\<close> of the target (both are
  non-empty in every record the application makes).
\<close>

lemma edit_replaces_local:
  assumes "editingTransaction st = Some e"
    and "nameF (formData st) \<noteq> []" and "priceF (formData st) \<noteq> []"
    and "id' e \<noteq> []" and "createdAt e \<noteq> []"
  shows "transactions (handleAddTransaction rates clk st) =
           map (\<lambda>t. if id' t = id' e
                     then \<lparr>id' = id' e, date = dateF (formData st), name = nameF (formData st),
                           price = parseFloat (priceF (formData st)),
                           currency = currencyF (formData st),
                           priceInMain = convertToMainCurrency rates (mainCurrency st)
                              (parseFloat (priceF (formData st))) (currencyF (formData st)),
                           category = categoryF (formData st),
                           paymentMethod = paymentMethodF (formData st),
                           createdAt = createdAt e\<rparr>
                     else t) (transactions st)"
  using assms
  by (simp add: handleAddTransaction_def newTransaction_def resetForm_def Let_def strOr_def)

text \<open>
  C6 fails in the synced variant: the data passed to \<open>updateDoc\<close> carries
  \<open>createdAt: serverTimestamp()\<close>, so an edit overwrites the creation time of the
  document with the time of the edit. Here a document created on 2024-01-01 is renamed
  on 2024-03-05: the id is kept, \<open>createdAt\<close> is not.
\<close>

theorem edit_synced_overwrites_createdAt:
  "(let coll = [mkDoc ''d1'' ''Taxi'' (Fin 20) ''EUR'' (Fin 20) ''u1''];
        st1 = handleEdit (Transaction.truncate (hd coll)) (initialApp clock1);
        st2 = st1\<lparr>formData := (formData st1)\<lparr>nameF := ''Taxi 2''\<rparr>\<rparr>;
        coll' = snd (handleAddTransactionSynced exchangeRatesSynced clock1
                  ''2024-03-05T10:00:01.000Z'' ''d2'' (Some ''u1'') st2 coll)
    in map id' coll' = [''d1''] \<and> map name coll' = [''Taxi 2'']
       \<and> map createdAt coll = [''2024-01-01T09:00:00.000Z'']
       \<and> map createdAt coll' = [''2024-03-05T10:00:01.000Z''])"
  by code_simp

section \<open>Properties of the import\<close>

text \<open>
  C2 fails on the import path: the record of a row takes \<open>priceInMain\<close> from the row and
  never from the converter. A row of 100 USD without the column \<open>Price in Main\<close>, imported
  with the main currency EUR, is stored with \<open>priceInMain\<close> 100, where the converter
  gives 1000/11.
\<close>

theorem import_priceInMain_not_converted:
  "map priceInMain (importedRecords ''EUR'' (\<lambda>k. clock1) (\<lambda>k. ''0.5'')
        [[''Date'' \<mapsto> ''2024-01-01'', ''Name'' \<mapsto> ''Taxi'', ''Price'' \<mapsto> ''100'',
          ''Currency'' \<mapsto> ''USD'']]) = [Fin 100]
   \<and> convertToMainCurrency exchangeRates0 ''EUR'' (Fin 100) ''USD'' = Fin (1000 / 11)"
  by code_simp

text \<open>The form path does convert: the record it adds holds the converted price.\<close>

lemma submit_priceInMain_converted:
  assumes "editingTransaction st = None"
    and "nameF (formData st) \<noteq> []" and "priceF (formData st) \<noteq> []"
  shows "\<exists>t. transactions (handleAddTransaction rates clk st) = transactions st @ [t]
           \<and> priceInMain t = convertToMainCurrency rates (mainCurrency st) (price t) (currency t)"
  using assms
  by (simp add: handleAddTransaction_def newTransaction_def resetForm_def Let_def)

text \<open>
  C9 fails where the column \<open>Price in Main\<close> parses to 0: \<open>parseFloat(...) || ...\<close> takes
  0 for a failed parse. A purchase of 0.3 JPY is 0.002 EUR, exported as \<open>0.00\<close>; the row
  is accepted, its \<open>Price in Main\<close> parses to 0, and the record gets \<open>priceInMain\<close> 0.3.
\<close>

theorem import_zero_priceInMain_replaced:
  "(let t = mkTx ''1'' ''Candy'' (Fin (3 / 10)) ''JPY''
              (convertToMainCurrency exchangeRates0 ''EUR'' (Fin (3 / 10)) ''JPY'');
        row = map_of (exportRow ''EUR'' t)
    in priceInMain t = Fin (1 / 500)
       \<and> row ''Price'' = Some ''0.3'' \<and> row ''Price in Main'' = Some ''0.00''
       \<and> rowAccepted row
       \<and> cellFloat row ''Price in Main'' = Fin 0
       \<and> priceInMain (importRow ''EUR'' clock1 ''0.5'' row) = Fin (3 / 10))"
  by code_simp

text \<open>
  What the import does for every table: one record for each accepted row, in order; a
  row is accepted when Date, Name and Price are present and not empty; \<open>priceInMain\<close> is
  the parsed column unless that is \<open>NaN\<close> or 0, and the parsed price then.
\<close>

lemma import_keeps_accepted:
  "length (importedRecords m clk rnd rows) = length (filter rowAccepted rows)"
  by (simp add: importedRecords_def)

lemma rowAccepted_iff:
  "rowAccepted row \<longleftrightarrow>
     (\<exists>d n p. row ''Date'' = Some d \<and> d \<noteq> [] \<and> row ''Name'' = Some n \<and> n \<noteq> []
        \<and> row ''Price'' = Some p \<and> p \<noteq> [])"
  by (auto simp: rowAccepted_def cellTruthy_def split: option.splits)

lemma import_priceInMain:
  "priceInMain (importRow m clk r row) =
     (if truthy (cellFloat row ''Price in Main'') then cellFloat row ''Price in Main''
      else cellFloat row ''Price'')"
  by (simp add: importRow_def orElse_def)

text \<open>Every path that creates a record stores a representable price.\<close>

lemma created_prices_representable:
  "representable (price (newTransaction rates clk st))"
  "representable (price (importRow m clk r row))"
  by (simp_all add: newTransaction_def importRow_def cellFloat_def Let_def parseFloat_representable)

section \<open>Properties of the round trip\<close>

text \<open>The round trip is the import of the parsed export of the store.\<close>

lemma roundTrip_export_import:
  "transactions (importFromCSV clk rnd (parsedRows (exportToCSV st)) st) =
     transactions st @ roundTrip (mainCurrency st) clk rnd (transactions st)"
  by (simp add: importFromCSV_def exportToCSV_def roundTrip_def Let_def)

lemma exported_cells:
  "map_of (exportRow m t) ''Date'' = Some (date t)"
  "map_of (exportRow m t) ''Name'' = Some (name t)"
  "map_of (exportRow m t) ''Price'' = Some (numToString (price t))"
  "map_of (exportRow m t) ''Currency'' = Some (currency t)"
  "map_of (exportRow m t) ''Price in Main'' = Some (toFixed2 (priceInMain t))"
  "map_of (exportRow m t) ''Category'' = Some (category t)"
  "map_of (exportRow m t) ''Payment Method'' = Some (paymentMethod t)"
  by (simp_all add: exportRow_def)

lemma exported_accepted:
  "rowAccepted (map_of (exportRow m t)) \<longleftrightarrow> date t \<noteq> [] \<and> name t \<noteq> []"
  by (simp add: rowAccepted_def cellTruthy_def exported_cells numToString_nonempty)

lemma import_exported:
  "importRow m clk r (map_of (exportRow m t)) =
     \<lparr>id' = nowMs clk @ r,
      date = date t,
      name = name t,
      price = parseFloat (numToString (price t)),
      currency = strOr (currency t) m,
      priceInMain = orElse (parseFloat (toFixed2 (priceInMain t)))
                      (parseFloat (numToString (price t))),
      category = category t,
      paymentMethod = paymentMethod t,
      createdAt = nowIso clk\<rparr>"
  by (simp add: importRow_def cellOr_def cellFloat_def exported_cells strOr_def)

lemma roundTrip_all_accepted:
  assumes "\<forall>t\<in>set ts. date t \<noteq> [] \<and> name t \<noteq> []"
  shows "roundTrip m clk rnd ts =
           map (\<lambda>(k, row). importRow m (clk k) (rnd k) row)
             (enumerate 0 (map (\<lambda>t. map_of (exportRow m t)) ts))"
proof -
  from assms have "filter rowAccepted (map (\<lambda>t. map_of (exportRow m t)) ts)
                     = map (\<lambda>t. map_of (exportRow m t)) ts"
    by (simp add: filter_id_conv exported_accepted)
  then show ?thesis
    by (simp add: roundTrip_def importedRecords_def parsedRows_def o_def)
qed

lemma roundTrip_dropped:
  "roundTrip m clk rnd ts = roundTrip m clk rnd (filter (\<lambda>t. date t \<noteq> [] \<and> name t \<noteq> []) ts)"
proof -
  have "filter rowAccepted (map (\<lambda>t. map_of (exportRow m t)) ts)
          = map (\<lambda>t. map_of (exportRow m t)) (filter (\<lambda>t. date t \<noteq> [] \<and> name t \<noteq> []) ts)"
    by (simp add: filter_map o_def exported_accepted)
  then show ?thesis
    by (simp add: roundTrip_def importedRecords_def parsedRows_def o_def filter_map exported_accepted)
qed

lemma import_exported_fields:
  assumes "currency t \<noteq> []" and "representable (price t)"
  shows "date (importRow m clk r (map_of (exportRow m t))) = date t
       \<and> name (importRow m clk r (map_of (exportRow m t))) = name t
       \<and> price (importRow m clk r (map_of (exportRow m t))) = price t
       \<and> currency (importRow m clk r (map_of (exportRow m t))) = currency t
       \<and> category (importRow m clk r (map_of (exportRow m t))) = category t
       \<and> paymentMethod (importRow m clk r (map_of (exportRow m t))) = paymentMethod t
       \<and> (\<forall>x. priceInMain t = Fin x \<and> \<bar>x\<bar> < 10 ^ 21 \<and> round2 x \<noteq> 0 \<longrightarrow>
             priceInMain (importRow m clk r (map_of (exportRow m t))) = Fin (round2 x))"
  using assms
  by (auto simp: import_exported parseFloat_numToString strOr_def parseFloat_toFixed2 orElse_def
      simp del: toFixed2.simps numToString.simps)

text \<open>The round trip of a list in which every record has a date and a name.\<close>

lemma roundTrip_accepted_records:
  assumes "\<forall>t\<in>set ts. date t \<noteq> [] \<and> name t \<noteq> [] \<and> currency t \<noteq> [] \<and> representable (price t)"
  shows "list_all2
           (\<lambda>t t'. date t' = date t \<and> name t' = name t \<and> price t' = price t
              \<and> currency t' = currency t \<and> category t' = category t
              \<and> paymentMethod t' = paymentMethod t
              \<and> (\<forall>x. priceInMain t = Fin x \<and> \<bar>x\<bar> < 10 ^ 21 \<and> round2 x \<noteq> 0 \<longrightarrow>
                    priceInMain t' = Fin (round2 x)))
           ts (roundTrip m clk rnd ts)"
proof -
  from assms have acc: "\<forall>t\<in>set ts. date t \<noteq> [] \<and> name t \<noteq> []" by blast
  show ?thesis
    unfolding roundTrip_all_accepted [OF acc] list_all2_conv_all_nth
  proof (rule conjI; (intro allI impI)?)
    show "length ts = length (map (\<lambda>(k, row). importRow m (clk k) (rnd k) row)
                                (enumerate 0 (map (\<lambda>t. map_of (exportRow m t)) ts)))"
      by simp
  next
    fix i assume i: "i < length ts"
    let ?t = "ts ! i"
    let ?t' = "map (\<lambda>(k, row). importRow m (clk k) (rnd k) row)
                 (enumerate 0 (map (\<lambda>t. map_of (exportRow m t)) ts)) ! i"
    from i assms have h: "currency ?t \<noteq> []" "representable (price ?t)"
      by (auto dest: nth_mem)
    have t': "?t' = importRow m (clk i) (rnd i) (map_of (exportRow m ?t))"
      using i by (simp add: nth_enumerate_eq)
    from import_exported_fields [OF h, of m "clk i" "rnd i"]
    show "date ?t' = date ?t \<and> name ?t' = name ?t \<and> price ?t' = price ?t
              \<and> currency ?t' = currency ?t \<and> category ?t' = category ?t
              \<and> paymentMethod ?t' = paymentMethod ?t
              \<and> (\<forall>x. priceInMain ?t = Fin x \<and> \<bar>x\<bar> < 10 ^ 21 \<and> round2 x \<noteq> 0 \<longrightarrow>
                    priceInMain ?t' = Fin (round2 x))"
      unfolding t' .
  qed
qed

text \<open>Every path that creates a record stores a currency that is not empty.\<close>

lemma created_currency_nonempty:
  "currencyF (formData st) \<noteq> [] \<Longrightarrow> currency (newTransaction rates clk st) \<noteq> []"
  "m \<noteq> [] \<Longrightarrow> currency (importRow m clk r row) \<noteq> []"
  by (auto simp: newTransaction_def importRow_def cellOr_def strOr_def Let_def
      split: option.split)

text \<open>
  C1, as stated, fails in two ways, each on a record made by the form. \<open>priceInMain\<close>
  is exported with two decimals: a coffee of 1 USD is stored with 10/11 and comes back
  with 0.91. The form does not check the date: a lunch submitted with the date field
  cleared is stored and exported, but its row does not pass the import filter, and the
  record is lost.
\<close>

theorem roundTrip_counterexample:
  "(let st = handleAddTransaction exchangeRates0 clock1
               ((initialApp clock1)\<lparr>formData := coffeeForm\<rparr>)
    in map priceInMain (transactions st) = [Fin (10 / 11)]
       \<and> map priceInMain
            (roundTrip ''EUR'' (\<lambda>k. clock1) (\<lambda>k. ''0.5'') (transactions st)) = [Fin (91 / 100)])
   \<and> (let st = handleAddTransaction exchangeRates0 clock1
                 ((initialApp clock1)\<lparr>formData := lunchForm\<lparr>dateF := []\<rparr>\<rparr>)
      in map name (transactions st) = [''Lunch''] \<and> map date (transactions st) = [[]]
         \<and> roundTrip ''EUR'' (\<lambda>k. clock1) (\<lambda>k. ''0.5'') (transactions st) = [])"
  by code_simp

text \<open>
  C1, amended. Exporting a list and importing it with the main currency unchanged gives
  the records that have a date and a name, in their order (a record whose date or name is
  empty is dropped by the import filter), ignoring id and createdAt. Each comes back
  equal to the original in date, name, price, currency, category and paymentMethod, and
  with \<open>priceInMain\<close> rounded to two decimals where that rounding is not 0 (the amount
  below \<open>10\<^sup>2\<^sup>1\<close>). Currencies are not empty and prices are numbers that a decimal
  literal can denote, as in every record the application makes.
\<close>

theorem roundTrip_reproduces:
  assumes "\<forall>t\<in>set ts. currency t \<noteq> [] \<and> representable (price t)"
  shows "list_all2
           (\<lambda>t t'. date t' = date t \<and> name t' = name t \<and> price t' = price t
              \<and> currency t' = currency t \<and> category t' = category t
              \<and> paymentMethod t' = paymentMethod t
              \<and> (\<forall>x. priceInMain t = Fin x \<and> \<bar>x\<bar> < 10 ^ 21 \<and> round2 x \<noteq> 0 \<longrightarrow>
                    priceInMain t' = Fin (round2 x)))
           (filter (\<lambda>t. date t \<noteq> [] \<and> name t \<noteq> []) ts) (roundTrip m clk rnd ts)"
proof -
  let ?fs = "filter (\<lambda>t. date t \<noteq> [] \<and> name t \<noteq> []) ts"
  from assms
  have "\<forall>t\<in>set ?fs. date t \<noteq> [] \<and> name t \<noteq> [] \<and> currency t \<noteq> [] \<and> representable (price t)"
    by simp
  then have "list_all2
           (\<lambda>t t'. date t' = date t \<and> name t' = name t \<and> price t' = price t
              \<and> currency t' = currency t \<and> category t' = category t
              \<and> paymentMethod t' = paymentMethod t
              \<and> (\<forall>x. priceInMain t = Fin x \<and> \<bar>x\<bar> < 10 ^ 21 \<and> round2 x \<noteq> 0 \<longrightarrow>
                    priceInMain t' = Fin (round2 x)))
           ?fs (roundTrip m clk rnd ?fs)"
    by (rule roundTrip_accepted_records)
  then show ?thesis by (simp only: roundTrip_dropped [symmetric])
qed

theorem roundTrip_reproduces_witness:
  "list_all (\<lambda>t. currency t \<noteq> [] \<and> representable (price t))
     [mkTx ''1'' ''Coffee'' (Fin 1) ''USD'' (Fin (10 / 11)),
      mkTx ''2'' ''Lunch'' (Fin (5 / 2)) ''EUR'' (Fin (5 / 2)),
      (mkTx ''3'' ''Tip'' (Fin 2) ''EUR'' (Fin 2))\<lparr>date := []\<rparr>]
   \<and> list_all2
           (\<lambda>t t'. date t' = date t \<and> name t' = name t \<and> price t' = price t
              \<and> currency t' = currency t \<and> category t' = category t
              \<and> paymentMethod t' = paymentMethod t
              \<and> (\<forall>x. priceInMain t = Fin x \<and> \<bar>x\<bar> < 10 ^ 21 \<and> round2 x \<noteq> 0 \<longrightarrow>
                    priceInMain t' = Fin (round2 x)))
     (filter (\<lambda>t. date t \<noteq> [] \<and> name t \<noteq> [])
        [mkTx ''1'' ''Coffee'' (Fin 1) ''USD'' (Fin (10 / 11)),
      mkTx ''2'' ''Lunch'' (Fin (5 / 2)) ''EUR'' (Fin (5 / 2)),
      (mkTx ''3'' ''Tip'' (Fin 2) ''EUR'' (Fin 2))\<lparr>date := []\<rparr>])
     (roundTrip ''EUR'' (\<lambda>k. clock1) (\<lambda>k. ''0.5'')
        [mkTx ''1'' ''Coffee'' (Fin 1) ''USD'' (Fin (10 / 11)),
      mkTx ''2'' ''Lunch'' (Fin (5 / 2)) ''EUR'' (Fin (5 / 2)),
      (mkTx ''3'' ''Tip'' (Fin 2) ''EUR'' (Fin 2))\<lparr>date := []\<rparr>])
   \<and> map name (roundTrip ''EUR'' (\<lambda>k. clock1) (\<lambda>k. ''0.5'')
        [mkTx ''1'' ''Coffee'' (Fin 1) ''USD'' (Fin (10 / 11)),
      mkTx ''2'' ''Lunch'' (Fin (5 / 2)) ''EUR'' (Fin (5 / 2)),
      (mkTx ''3'' ''Tip'' (Fin 2) ''EUR'' (Fin 2))\<lparr>date := []\<rparr>])
       = [''Coffee'', ''Lunch'']
   \<and> map priceInMain (roundTrip ''EUR'' (\<lambda>k. clock1) (\<lambda>k. ''0.5'')
        [mkTx ''1'' ''Coffee'' (Fin 1) ''USD'' (Fin (10 / 11)),
      mkTx ''2'' ''Lunch'' (Fin (5 / 2)) ''EUR'' (Fin (5 / 2)),
      (mkTx ''3'' ''Tip'' (Fin 2) ''EUR'' (Fin 2))\<lparr>date := []\<rparr>])
       = [Fin (91 / 100), Fin (5 / 2)]"
proof -
  let ?ts = "[mkTx ''1'' ''Coffee'' (Fin 1) ''USD'' (Fin (10 / 11)),
      mkTx ''2'' ''Lunch'' (Fin (5 / 2)) ''EUR'' (Fin (5 / 2)),
      (mkTx ''3'' ''Tip'' (Fin 2) ''EUR'' (Fin 2))\<lparr>date := []\<rparr>]"
  have r: "representable (Fin 1)" "representable (Fin (5 / 2))" "representable (Fin 2)"
    by code_simp+
  have h: "\<forall>t\<in>set ?ts. currency t \<noteq> [] \<and> representable (price t)"
    using r by (simp add: mkTx_def)
  then have a: "list_all (\<lambda>t. currency t \<noteq> [] \<and> representable (price t)) ?ts"
    by (simp only: list_all_iff)
  have c: "map name (roundTrip ''EUR'' (\<lambda>k. clock1) (\<lambda>k. ''0.5'') ?ts) = [''Coffee'', ''Lunch'']"
    by code_simp
  have d: "map priceInMain (roundTrip ''EUR'' (\<lambda>k. clock1) (\<lambda>k. ''0.5'') ?ts)
             = [Fin (91 / 100), Fin (5 / 2)]"
    by code_simp
  from a roundTrip_reproduces [OF h, of "''EUR''" "\<lambda>k. clock1" "\<lambda>k. ''0.5''"] c d
  show ?thesis by (intro conjI)
qed

section \<open>Properties of the aggregator\<close>

lemma jsadd_assoc: "jsadd (jsadd a b) c = jsadd a (jsadd b c)"
  by (cases a; cases b; cases c) simp_all

lemma jsadd_zero [simp]: "jsadd a (Fin 0) = a" "jsadd (Fin 0) a = a"
  by (cases a; simp)+

lemma foldl_jsadd: "foldl (\<lambda>s t. jsadd s (f t)) a ts = jsadd a (jssum (map f ts))"
  by (induction ts arbitrary: a) (simp_all add: jsadd_assoc)

lemma jssum_Fin: "jssum (map Fin xs) = Fin (sum_list xs)"
  by (induction xs) simp_all

lemma jssum_append: "jssum (xs @ ys) = jsadd (jssum xs) (jssum ys)"
  by (induction xs) (simp_all add: jsadd_assoc)

text \<open>
  C7. The total is the sum of \<open>priceInMain\<close> over the records and the average is the total
  divided by the number of records, 0 when there is none; the empty list gives total 0
  and average 0. When every \<open>priceInMain\<close> is finite, these are the sum and the mean of
  the values.
\<close>

theorem total_and_average:
  "totalSpent ts = jssum (map priceInMain ts)
   \<and> avgTransaction ts =
       (if length ts = 0 then Fin 0 else jsdiv (totalSpent ts) (Fin (of_nat (length ts))))
   \<and> totalSpent [] = Fin 0 \<and> avgTransaction [] = Fin 0
   \<and> (map priceInMain ts = map Fin xs \<longrightarrow>
        totalSpent ts = Fin (sum_list xs)
        \<and> avgTransaction ts =
            (if length xs = 0 then Fin 0 else Fin (sum_list xs / of_nat (length xs))))"
proof -
  have tot: "totalSpent ts = jssum (map priceInMain ts)"
    by (simp add: totalSpent_def foldl_jsadd)
  have len: "map priceInMain ts = map Fin xs \<Longrightarrow> length ts = length xs"
    by (metis length_map)
  show ?thesis
    using len by (auto simp: tot avgTransaction_def jssum_Fin) (simp_all add: totalSpent_def)
qed

theorem total_and_average_witness:
  "map priceInMain [mkTx ''1'' ''Lunch'' (Fin 10) ''EUR'' (Fin 10),
                    mkTx ''2'' ''Taxi'' (Fin 100) ''USD'' (Fin (5 / 2))] = map Fin [10, 5 / 2]
   \<and> totalSpent [mkTx ''1'' ''Lunch'' (Fin 10) ''EUR'' (Fin 10),
                 mkTx ''2'' ''Taxi'' (Fin 100) ''USD'' (Fin (5 / 2))] = Fin (25 / 2)
   \<and> avgTransaction [mkTx ''1'' ''Lunch'' (Fin 10) ''EUR'' (Fin 10),
                     mkTx ''2'' ''Taxi'' (Fin 100) ''USD'' (Fin (5 / 2))] = Fin (25 / 4)"
proof -
  let ?ts = "[mkTx ''1'' ''Lunch'' (Fin 10) ''EUR'' (Fin 10),
              mkTx ''2'' ''Taxi'' (Fin 100) ''USD'' (Fin (5 / 2))]"
  have h: "map priceInMain ?ts = map Fin [10, 5 / 2]" by (simp add: mkTx_def)
  from total_and_average [of ?ts "[10, 5 / 2]"] h show ?thesis by simp
qed

lemma remdups_snoc: "remdups (ys @ [x]) = filter (\<lambda>y. y \<noteq> x) (remdups ys) @ [x]"
  by (induction ys) auto

lemma firsts_rev_remdups: "firsts xs = rev (remdups (rev xs))"
proof (induction xs)
  case Nil
  show ?case by simp
next
  case (Cons x xs)
  have "remdups (rev xs @ [x]) = filter (\<lambda>y. y \<noteq> x) (remdups (rev xs)) @ [x]"
    by (rule remdups_snoc)
  then show ?case using Cons by (simp add: rev_filter)
qed

lemma firsts_snoc: "firsts (xs @ [x]) = (if x \<in> set xs then firsts xs else firsts xs @ [x])"
  by (simp add: firsts_rev_remdups)

lemma set_firsts [simp]: "set (firsts xs) = set xs"
  by (simp add: firsts_rev_remdups)

lemma distinct_firsts [simp]: "distinct (firsts xs)"
  by (simp add: firsts_rev_remdups)

lemma find_map_key:
  "find (\<lambda>a. fst a = c) (map (\<lambda>k. (k, g k)) cs) = (if c \<in> set cs then Some (c, g c) else None)"
  by (induction cs) auto

lemma addAmount_map_key:
  "distinct cs \<Longrightarrow>
   addAmount c p (map (\<lambda>k. (k, g k)) cs) = map (\<lambda>k. (k, if k = c then jsadd (g k) p else g k)) cs"
  by (induction cs) auto

lemma groupSum_snoc:
  "groupSum (ts @ [t]) c = (if currency t = c then jsadd (groupSum ts c) (price t) else groupSum ts c)"
  by (simp add: groupSum_def jssum_append)

lemma groupSum_fresh: "c \<notin> currency ` set ts \<Longrightarrow> groupSum ts c = Fin 0"
proof -
  assume "c \<notin> currency ` set ts"
  then have "filter (\<lambda>t. currency t = c) ts = []"
    by (auto simp: filter_empty_conv)
  then show ?thesis by (simp add: groupSum_def)
qed

lemma currencyStep_spec:
  "currencyStep (map (\<lambda>c. (c, groupSum ts c)) (firsts (map currency ts))) t =
   map (\<lambda>c. (c, groupSum (ts @ [t]) c)) (firsts (map currency (ts @ [t])))"
proof (cases "currency t \<in> currency ` set ts")
  case True
  then show ?thesis
    by (simp add: currencyStep_def find_map_key addAmount_map_key firsts_snoc groupSum_snoc
        cong: map_cong)
next
  case False
  then show ?thesis
    by (auto simp add: currencyStep_def find_map_key firsts_snoc groupSum_snoc groupSum_fresh)
qed

text \<open>
  C8. The per-currency series has one entry for each currency of the list, in the order
  in which the currencies first occur, and the amount of an entry is the sum of the
  \<open>price\<close> fields (not \<open>priceInMain\<close>) of the records of that currency.
\<close>

theorem spendingByCurrency_groups:
  "spendingByCurrency ts =
     map (\<lambda>c. (c, jssum (map price (filter (\<lambda>t. currency t = c) ts))))
       (firsts (map currency ts))"
proof -
  have "spendingByCurrency ts = map (\<lambda>c. (c, groupSum ts c)) (firsts (map currency ts))"
  proof (induction ts rule: rev_induct)
    case Nil
    show ?case by (simp add: spendingByCurrency_def)
  next
    case (snoc t ts)
    have "spendingByCurrency (ts @ [t]) = currencyStep (spendingByCurrency ts) t"
      by (simp add: spendingByCurrency_def)
    then show ?case using snoc by (simp only: currencyStep_spec)
  qed
  then show ?thesis by (simp add: groupSum_def)
qed

theorem spendingByCurrency_groups_witness:
  "spendingByCurrency [mkTx ''1'' ''Lunch'' (Fin 10) ''EUR'' (Fin 10),
                       mkTx ''2'' ''Taxi'' (Fin 100) ''USD'' (Fin (1000 / 11)),
                       mkTx ''3'' ''Hotel'' (Fin 90) ''EUR'' (Fin 90)]
     = [(''EUR'', Fin 100), (''USD'', Fin 100)]"
  using spendingByCurrency_groups [of "[mkTx ''1'' ''Lunch'' (Fin 10) ''EUR'' (Fin 10),
                       mkTx ''2'' ''Taxi'' (Fin 100) ''USD'' (Fin (1000 / 11)),
                       mkTx ''3'' ''Hotel'' (Fin 90) ''EUR'' (Fin 90)]"]
  by (simp add: mkTx_def)

end
